theory Spec2Isabelle
  imports Main
begin

section \<open>Values, errors and the host interface\<close>

text \<open>
  Python values as far as the two modules inspect them: configuration entries and event
  contents are JSON-like. A dictionary is an association list with string keys; a value
  of any other Python type behaves like \<open>PNone\<close> in every test made here (it is no
  list, no string, has no \<open>get\<close> and is not subscriptable).
\<close>

datatype pyval =
    PNone
  | PBool bool
  | PInt int
  | PStr string
  | PList "pyval list"
  | PDict "(string \<times> pyval) list"

datatype Codes = FORBIDDEN

text \<open>
  Exceptions as values; each of them derives from Python's \<open>Exception\<close>, which is
  what \<open>except Exception\<close> catches. \<open>ValueError\<close> carries the permission that was
  not recognised, \<open>ConfigError\<close> its message, \<open>SynapseError\<close> the status, the
  message and the error code. \<open>HostError\<close> stands for whatever the host's state lookup
  raises.
\<close>

datatype error =
    ValueError string
  | IndexError
  | KeyError string
  | TypeError
  | AttributeError
  | ConfigError string
  | SynapseError nat string Codes
  | HostError string

type_synonym StateMap = "(string \<times> string) \<rightharpoonup> pyval"

text \<open>The two operations of the host's \<open>ModuleApi\<close> that the modules call.\<close>

record ModuleApi =
  get_room_state :: "string \<Rightarrow> error + StateMap"
  is_mine :: "string \<Rightarrow> bool"

section \<open>Python built-ins used by the source\<close>

text \<open>
  \<open>str.lower\<close> on ASCII: the letters \<open>A\<close> to \<open>Z\<close> move to \<open>a\<close> to \<open>z\<close>, every
  other character stays. A \<open>string\<close> is a list of 8-bit characters, so identifiers are
  read as ASCII text here.
\<close>

definition char_lower :: "char \<Rightarrow> char" where
  "char_lower c =
     (let n = (of_char c :: nat) in if 65 \<le> n \<and> n \<le> 90 then char_of (n + 32) else c)"

definition lower :: "string \<Rightarrow> string" where
  "lower s = map char_lower s"

text \<open>
  \<open>s.split(sep, 1)\<close> for a one-character separator: at most one split, at the first
  occurrence; a string without the separator comes back whole.
\<close>

definition split1 :: "char \<Rightarrow> string \<Rightarrow> string list" where
  "split1 sep s =
     (if sep \<in> set s
      then [takeWhile (\<lambda>c. c \<noteq> sep) s, tl (dropWhile (\<lambda>c. c \<noteq> sep) s)]
      else [s])"

text \<open>\<open>xs[i]\<close> for a non-negative index: \<open>IndexError\<close> out of range.\<close>

definition index :: "'a list \<Rightarrow> nat \<Rightarrow> error + 'a" where
  "index xs i = (if i < length xs then Inr (xs ! i) else Inl IndexError)"

text \<open>\<open>s.startswith(p)\<close>.\<close>

definition startswith :: "string \<Rightarrow> string \<Rightarrow> bool" where
  "startswith s p = (take (length p) s = p)"

text \<open>\<open>isinstance(v, list)\<close> and \<open>isinstance(v, str)\<close>.\<close>

fun is_list :: "pyval \<Rightarrow> bool" where
  "is_list (PList _) = True"
| "is_list _ = False"

fun is_str :: "pyval \<Rightarrow> bool" where
  "is_str (PStr _) = True"
| "is_str _ = False"

text \<open>Truth value of a Python value, as \<open>if v and ...\<close> tests it.\<close>

fun truthy :: "pyval \<Rightarrow> bool" where
  "truthy PNone = False"
| "truthy (PBool b) = b"
| "truthy (PInt i) = (i \<noteq> 0)"
| "truthy (PStr s) = (s \<noteq> [])"
| "truthy (PList xs) = (xs \<noteq> [])"
| "truthy (PDict kvs) = (kvs \<noteq> [])"

text \<open>
  \<open>v[key]\<close> with a string key: a dictionary raises \<open>KeyError\<close> for a missing key, a
  string or a list raises \<open>TypeError\<close> for a string index, as do the values that are
  not subscriptable.
\<close>

fun subscript :: "pyval \<Rightarrow> string \<Rightarrow> error + pyval" where
  "subscript (PDict kvs) key =
     (case map_of kvs key of None \<Rightarrow> Inl (KeyError key) | Some v \<Rightarrow> Inr v)"
| "subscript _ key = Inl TypeError"

text \<open>\<open>v.get(key)\<close>: \<open>None\<close> for a missing key; only a dictionary has the method.\<close>

fun get_method :: "pyval \<Rightarrow> string \<Rightarrow> error + pyval" where
  "get_method (PDict kvs) key =
     (case map_of kvs key of None \<Rightarrow> Inr PNone | Some v \<Rightarrow> Inr v)"
| "get_method _ key = Inl AttributeError"

section \<open>The rule engine (module.py)\<close>

text \<open>
  Modelled from the spec: the names imported from the rule engine's configuration module
  (\<open>RuleResult\<close>, the rule classes, \<open>UserRestrictionsModuleConfig\<close>, the permission
  constants and \<open>ALL_UNDERSTOOD_PERMISSIONS\<close>) are not among the sources. The result of
  a rule is the tri-state of the spec.
\<close>

datatype RuleResult = Allow | Deny | NoDecision

text \<open>
  Modelled from the spec: a rule is a pure decision unit; \<open>rule.apply(user_id,
  permission)\<close> is the function itself, whatever its matching strategy.
\<close>

type_synonym Rule = "string \<Rightarrow> string \<Rightarrow> RuleResult"

text \<open>Modelled from the spec: the three fields of the validated configuration.\<close>

record UserRestrictionsModuleConfig =
  rules :: "Rule list"
  default_deny :: "string set"
  local_homeservers :: "string set"

text \<open>Modelled from the spec: the permission identifiers of the closed catalog.\<close>

definition CREATE_ROOM :: string where "CREATE_ROOM = ''create_room''"
definition INVITE :: string where "INVITE = ''invite''"
definition RECEIVE_INVITES :: string where "RECEIVE_INVITES = ''receive_invites''"
definition RECEIVE_ALL_INVITES :: string where "RECEIVE_ALL_INVITES = ''receive_all_invites''"
definition INVITE_ALL :: string where "INVITE_ALL = ''invite_all''"
definition JOIN_ROOM :: string where "JOIN_ROOM = ''join_room''"

text \<open>
  Modelled from the spec: \<open>ALL_UNDERSTOOD_PERMISSIONS\<close>, the closed catalog, holds
  these six identifiers and no other.
\<close>

definition ALL_UNDERSTOOD_PERMISSIONS :: "string set" where
  "ALL_UNDERSTOOD_PERMISSIONS =
     {CREATE_ROOM, INVITE, RECEIVE_INVITES, RECEIVE_ALL_INVITES, INVITE_ALL, JOIN_ROOM}"

record UserRestrictionsModule =
  api :: ModuleApi
  config :: UserRestrictionsModuleConfig

text \<open>\<open>_get_domain\<close>: the part after the first colon, lowercased.\<close>

definition get_domain :: "string \<Rightarrow> error + string" where
  "get_domain user_id =
     (case index (split1 CHR '':'' user_id) 1 of
        Inl e \<Rightarrow> Inl e
      | Inr d \<Rightarrow> Inr (lower d))"

text \<open>
  The \<open>for\<close> loop of \<open>_apply_rules\<close>: \<open>Some b\<close> when a rule returned \<open>b\<close> from
  inside the loop, \<open>None\<close> when the loop ran to its end.
\<close>

fun rules_loop :: "Rule list \<Rightarrow> string \<Rightarrow> string \<Rightarrow> bool option" where
  "rules_loop [] user_id permission = None"
| "rules_loop (rule # rest) user_id permission =
     (let rule_result = rule user_id permission in
      if rule_result = Allow then Some True
      else if rule_result = Deny then Some False
      else rules_loop rest user_id permission)"

definition apply_rules :: "UserRestrictionsModule \<Rightarrow> string \<Rightarrow> string \<Rightarrow> error + bool" where
  "apply_rules self user_id permission =
     (if permission \<notin> ALL_UNDERSTOOD_PERMISSIONS then Inl (ValueError permission)
      else case rules_loop (rules (config self)) user_id permission of
             Some b \<Rightarrow> Inr b
           | None \<Rightarrow>
               if permission \<in> default_deny (config self) then Inr False
               else Inr True)"

definition callback_user_may_create_room :: "UserRestrictionsModule \<Rightarrow> string \<Rightarrow> error + bool" where
  "callback_user_may_create_room self user = apply_rules self user CREATE_ROOM"

definition callback_user_may_invite ::
  "UserRestrictionsModule \<Rightarrow> string \<Rightarrow> string \<Rightarrow> string \<Rightarrow> error + bool" where
  "callback_user_may_invite self inviter invitee room_id =
     (case apply_rules self inviter INVITE of
        Inl e \<Rightarrow> Inl e
      | Inr may_inv \<Rightarrow>
         (if \<not> may_inv then Inr False
          else
           (case apply_rules self inviter INVITE_ALL of
              Inl e \<Rightarrow> Inl e
            | Inr inv_all \<Rightarrow>
               (if inv_all then Inr True
                else
                 (case apply_rules self invitee RECEIVE_ALL_INVITES of
                    Inl e \<Rightarrow> Inl e
                  | Inr recv_all \<Rightarrow>
                     (if recv_all then Inr True
                      else
                       (case apply_rules self invitee RECEIVE_INVITES of
                          Inl e \<Rightarrow> Inl e
                        | Inr recv \<Rightarrow>
                           (if recv then
                              (case get_domain inviter of
                                 Inl e \<Rightarrow> Inl e
                               | Inr inviter_domain \<Rightarrow>
                                   Inr (inviter_domain \<in> local_homeservers (config self)))
                            else Inr False))))))))"

text \<open>
  The body of the \<open>try\<close> block of \<open>callback_user_may_join_room\<close>: \<open>Inr True\<close> when
  it returns \<open>True\<close>, \<open>Inr False\<close> when it falls through, \<open>Inl e\<close> when the lookup
  or one of the accesses raises.
\<close>

definition state_check :: "UserRestrictionsModule \<Rightarrow> string \<Rightarrow> string \<Rightarrow> error + bool" where
  "state_check self user room_id =
     (case get_room_state (api self) room_id of
        Inl e \<Rightarrow> Inl e
      | Inr state \<Rightarrow>
         (case state (''m.room.member'', user) of
            None \<Rightarrow> Inr False
          | Some member_event \<Rightarrow>
             (if \<not> truthy member_event then Inr False
              else
               (case subscript member_event ''content'' of
                  Inl e \<Rightarrow> Inl e
                | Inr content \<Rightarrow>
                   (case get_method content ''membership'' of
                      Inl e \<Rightarrow> Inl e
                    | Inr membership \<Rightarrow>
                       (if membership = PStr ''join'' then Inr True else Inr False))))))"

text \<open>
  \<open>except Exception\<close> only logs, so an error of the block continues with the rules, as
  a block that fell through does.
\<close>

definition callback_user_may_join_room ::
  "UserRestrictionsModule \<Rightarrow> string \<Rightarrow> string \<Rightarrow> bool \<Rightarrow> error + bool" where
  "callback_user_may_join_room self user room_id is_invited =
     (case state_check self user room_id of
        Inr True \<Rightarrow> Inr True
      | _ \<Rightarrow>
          (case apply_rules self user JOIN_ROOM of
             Inl e \<Rightarrow> Inl e
           | Inr has_join_room \<Rightarrow>
               if has_join_room \<or> is_invited then Inr True else Inr False))"

section \<open>The restriction module (config.py)\<close>

text \<open>An event as far as the check reads it.\<close>

record EventBase =
  type :: string
  content :: "(string \<times> pyval) list"
  room_id :: string
  sender :: string
  state_key :: string

text \<open>The dictionary that \<open>parse_config\<close> returns, with its two keys as fields.\<close>

record RestrictionConfig =
  restricted_rooms :: "string set"
  leave_error_message :: string

record RestrictionModule =
  self_api :: ModuleApi
  self_restricted_rooms :: "string set"
  self_leave_error_message :: string

text \<open>\<open>d.get(key, default)\<close> on the raw configuration.\<close>

definition get_default :: "(string \<rightharpoonup> pyval) \<Rightarrow> string \<Rightarrow> pyval \<Rightarrow> pyval" where
  "get_default d key dflt = (case d key of None \<Rightarrow> dflt | Some v \<Rightarrow> v)"

text \<open>The loop over the entries of \<open>restricted_rooms\<close>: the first bad entry raises.\<close>

fun check_rooms :: "pyval list \<Rightarrow> error + unit" where
  "check_rooms [] = Inr ()"
| "check_rooms (room # rest) =
     (if \<not> is_str room \<or> \<not> (case room of PStr s \<Rightarrow> startswith s ''!'' | _ \<Rightarrow> False)
      then Inl (ConfigError
        (''Each entry in restricted_rooms must be a valid room ID starting with '' @
         [CHR 0x27, CHR ''!'', CHR 0x27]))
      else check_rooms rest)"

text \<open>\<open>set(restricted_rooms)\<close>, reached only once every entry is a string.\<close>

fun room_set :: "pyval list \<Rightarrow> string set" where
  "room_set [] = {}"
| "room_set (PStr s # rest) = insert s (room_set rest)"
| "room_set (_ # rest) = room_set rest"

definition parse_config :: "(string \<rightharpoonup> pyval) \<Rightarrow> error + RestrictionConfig" where
  "parse_config cfg =
     (case get_default cfg ''restricted_rooms'' (PList []) of
        PList rooms \<Rightarrow>
          (case check_rooms rooms of
             Inl e \<Rightarrow> Inl e
           | Inr _ \<Rightarrow>
               (case get_default cfg ''leave_error_message''
                       (PStr ''You are not allowed to leave this room.'') of
                  PStr msg \<Rightarrow>
                    Inr \<lparr>restricted_rooms = room_set rooms, leave_error_message = msg\<rparr>
                | _ \<Rightarrow> Inl (ConfigError ''leave_error_message must be a string'')))
      | _ \<Rightarrow> Inl (ConfigError ''restricted_rooms must be a list of strings''))"

text \<open>\<open>__init__\<close>: the parsed configuration and the host interface.\<close>

definition init :: "RestrictionConfig \<Rightarrow> ModuleApi \<Rightarrow> RestrictionModule" where
  "init cfg a =
     \<lparr>self_api = a,
      self_restricted_rooms = restricted_rooms cfg,
      self_leave_error_message = leave_error_message cfg\<rparr>"

definition check_event_allowed ::
  "RestrictionModule \<Rightarrow> EventBase \<Rightarrow> StateMap \<Rightarrow> error + EventBase" where
  "check_event_allowed self event state_events =
     (if type event \<noteq> ''m.room.member'' then Inr event
      else
        let membership = (case map_of (content event) ''membership'' of
                            None \<Rightarrow> PNone | Some v \<Rightarrow> v) in
        if membership \<noteq> PStr ''leave'' then Inr event
        else if room_id event \<notin> self_restricted_rooms self then Inr event
        else if sender event = state_key event then
          (if is_mine (self_api self) (sender event)
           then Inl (SynapseError 403 (self_leave_error_message self) FORBIDDEN)
           else Inr event)
        else Inr event)"

definition check_can_deactivate_user :: "RestrictionModule \<Rightarrow> string \<Rightarrow> bool \<Rightarrow> bool" where
  "check_can_deactivate_user self user_id by_admin = by_admin"

section \<open>The invite decision tree as the specification words it\<close>

text \<open>
  \<open>allowed self u p\<close>: the rule engine answers true. \<open>local_homeserver_check\<close> is
  step 4 of the tree: the inviter's domain is a member of \<open>local_homeservers\<close>.
  \<open>invite_decision_tree\<close> takes the answers to the four queries and the outcome of
  step 4, in the order of the specification.
\<close>

definition allowed :: "UserRestrictionsModule \<Rightarrow> string \<Rightarrow> string \<Rightarrow> bool" where
  "allowed self user_id permission = (apply_rules self user_id permission = Inr True)"

definition local_homeserver_check :: "UserRestrictionsModule \<Rightarrow> string \<Rightarrow> error + bool" where
  "local_homeserver_check self inviter =
     (case get_domain inviter of
        Inl e \<Rightarrow> Inl e
      | Inr d \<Rightarrow> Inr (d \<in> local_homeservers (config self)))"

definition invite_decision_tree ::
  "bool \<Rightarrow> bool \<Rightarrow> bool \<Rightarrow> bool \<Rightarrow> error + bool \<Rightarrow> error + bool" where
  "invite_decision_tree may_invite invite_all receive_all receive step4 =
     (if \<not> may_invite then Inr False
      else if invite_all then Inr True
      else if receive_all then Inr True
      else if receive then step4
      else Inr False)"

section \<open>The configuration errors as the specification words them\<close>

text \<open>
  The three faults of a raw restriction configuration: \<open>restricted_rooms\<close> is present
  and no list; an entry of the list is not a string starting with \<open>!\<close>;
  \<open>leave_error_message\<close> is present and no string. \<open>configured_rooms\<close> and
  \<open>configured_message\<close> read the two settings, with their defaults.
\<close>

fun is_room_id :: "pyval \<Rightarrow> bool" where
  "is_room_id (PStr s) = startswith s ''!''"
| "is_room_id _ = False"

definition rooms_not_a_list :: "(string \<rightharpoonup> pyval) \<Rightarrow> bool" where
  "rooms_not_a_list cfg =
     (case cfg ''restricted_rooms'' of None \<Rightarrow> False | Some v \<Rightarrow> \<not> is_list v)"

definition configured_rooms :: "(string \<rightharpoonup> pyval) \<Rightarrow> pyval list" where
  "configured_rooms cfg =
     (case cfg ''restricted_rooms'' of Some (PList xs) \<Rightarrow> xs | _ \<Rightarrow> [])"

definition bad_room_entry :: "(string \<rightharpoonup> pyval) \<Rightarrow> bool" where
  "bad_room_entry cfg = list_ex (\<lambda>x. \<not> is_room_id x) (configured_rooms cfg)"

definition message_not_a_string :: "(string \<rightharpoonup> pyval) \<Rightarrow> bool" where
  "message_not_a_string cfg =
     (case cfg ''leave_error_message'' of None \<Rightarrow> False | Some v \<Rightarrow> \<not> is_str v)"

definition configured_message :: "(string \<rightharpoonup> pyval) \<Rightarrow> string" where
  "configured_message cfg =
     (case cfg ''leave_error_message'' of
        Some (PStr m) \<Rightarrow> m
      | _ \<Rightarrow> ''You are not allowed to leave this room.'')"

text \<open>The five conditions of the leave block.\<close>

definition local_self_leave :: "RestrictionModule \<Rightarrow> EventBase \<Rightarrow> bool" where
  "local_self_leave self event =
     (type event = ''m.room.member''
      \<and> map_of (content event) ''membership'' = Some (PStr ''leave'')
      \<and> room_id event \<in> self_restricted_rooms self
      \<and> sender event = state_key event
      \<and> is_mine (self_api self) (sender event))"

section \<open>Example inputs\<close>

text \<open>
  Concrete rules, configurations and hosts on which the properties below are evaluated.
  \<open>decide_for u p r\<close> answers \<open>r\<close> for the user \<open>u\<close> asking for \<open>p\<close> and
  decides nothing else; \<open>decide_user u r\<close> answers \<open>r\<close> for \<open>u\<close> whatever the
  permission; \<open>decide_all r\<close> answers \<open>r\<close> to everyone.
\<close>

definition decide_for :: "string \<Rightarrow> string \<Rightarrow> RuleResult \<Rightarrow> Rule" where
  "decide_for u p r = (\<lambda>user_id permission. if user_id = u \<and> permission = p then r else NoDecision)"

definition decide_user :: "string \<Rightarrow> RuleResult \<Rightarrow> Rule" where
  "decide_user u r = (\<lambda>user_id permission. if user_id = u then r else NoDecision)"

definition decide_all :: "RuleResult \<Rightarrow> Rule" where
  "decide_all r = (\<lambda>user_id permission. r)"

definition failing_host :: ModuleApi where
  "failing_host =
     \<lparr>get_room_state = (\<lambda>room_id. Inl (HostError ''state unavailable'')),
      is_mine = (\<lambda>user_id. True)\<rparr>"

text \<open>A host whose room state holds one membership entry, for the user \<open>u\<close>.\<close>

definition member_host :: "string \<Rightarrow> pyval \<Rightarrow> ModuleApi" where
  "member_host u entry =
     \<lparr>get_room_state = (\<lambda>room_id. Inr [(''m.room.member'', u) \<mapsto> entry]),
      is_mine = (\<lambda>user_id. True)\<rparr>"

definition module_on ::
  "ModuleApi \<Rightarrow> Rule list \<Rightarrow> string set \<Rightarrow> string set \<Rightarrow> UserRestrictionsModule" where
  "module_on host rs dd lh =
     \<lparr>api = host,
      config = \<lparr>rules = rs, default_deny = dd, local_homeservers = lh\<rparr>\<rparr>"

definition module_with :: "Rule list \<Rightarrow> string set \<Rightarrow> string set \<Rightarrow> UserRestrictionsModule" where
  "module_with rs dd lh = module_on failing_host rs dd lh"

text \<open>A host for which exactly the users of the server \<open>home\<close> are local.\<close>

definition home_host :: ModuleApi where
  "home_host =
     \<lparr>get_room_state = (\<lambda>room_id. Inr Map.empty),
      is_mine = (\<lambda>user_id. get_domain user_id = Inr ''home'')\<rparr>"

definition leave_event :: "string \<Rightarrow> string \<Rightarrow> string \<Rightarrow> string \<Rightarrow> EventBase" where
  "leave_event room who target membership =
     \<lparr>type = ''m.room.member'',
      content = [(''membership'', PStr membership)],
      room_id = room,
      sender = who,
      state_key = target\<rparr>"

section \<open>Properties\<close>

subsection \<open>The rule loop\<close>

lemma rules_loop_skip:
  "\<forall>q \<in> set pre. q u p = NoDecision \<Longrightarrow> rules_loop (pre @ rest) u p = rules_loop rest u p"
  by (induction pre) simp_all

lemma rules_loop_undecided:
  "\<forall>q \<in> set rs. q u p = NoDecision \<Longrightarrow> rules_loop rs u p = None"
  by (induction rs) simp_all

lemma permissions_understood:
  "CREATE_ROOM \<in> ALL_UNDERSTOOD_PERMISSIONS"
  "INVITE \<in> ALL_UNDERSTOOD_PERMISSIONS"
  "RECEIVE_INVITES \<in> ALL_UNDERSTOOD_PERMISSIONS"
  "RECEIVE_ALL_INVITES \<in> ALL_UNDERSTOOD_PERMISSIONS"
  "INVITE_ALL \<in> ALL_UNDERSTOOD_PERMISSIONS"
  "JOIN_ROOM \<in> ALL_UNDERSTOOD_PERMISSIONS"
  by (simp_all add: ALL_UNDERSTOOD_PERMISSIONS_def)

lemma catalog_names:
  "ALL_UNDERSTOOD_PERMISSIONS =
     {''create_room'', ''invite'', ''receive_invites'', ''receive_all_invites'',
      ''invite_all'', ''join_room''}"
  by (simp add: ALL_UNDERSTOOD_PERMISSIONS_def CREATE_ROOM_def INVITE_def RECEIVE_INVITES_def
      RECEIVE_ALL_INVITES_def INVITE_ALL_def JOIN_ROOM_def)

lemma apply_rules_understood:
  "p \<in> ALL_UNDERSTOOD_PERMISSIONS \<Longrightarrow>
   apply_rules self u p =
     Inr (case rules_loop (rules (config self)) u p of
            Some b \<Rightarrow> b
          | None \<Rightarrow> p \<notin> default_deny (config self))"
  by (simp add: apply_rules_def split: option.splits)

lemma apply_rules_total:
  "p \<in> ALL_UNDERSTOOD_PERMISSIONS \<Longrightarrow> \<exists>b. apply_rules self u p = Inr b"
  by (simp add: apply_rules_understood)

text \<open>
  C1. \<open>apply_rules\<close> raises for a permission outside the catalog of six names. For a
  recognised permission it answers true at the first rule that yields \<open>Allow\<close> and false
  at the first rule that yields \<open>Deny\<close>, every earlier rule having decided nothing; when
  no rule decides, and so for every user when the rule list is empty, it answers false
  if the permission is in \<open>default_deny\<close> and true otherwise.
\<close>

theorem apply_rules_first_decision:
  "ALL_UNDERSTOOD_PERMISSIONS =
     {''create_room'', ''invite'', ''receive_invites'', ''receive_all_invites'',
      ''invite_all'', ''join_room''}
   \<and> (p \<notin> ALL_UNDERSTOOD_PERMISSIONS \<longrightarrow> apply_rules self u p = Inl (ValueError p))
   \<and> (p \<in> ALL_UNDERSTOOD_PERMISSIONS \<and> rules (config self) = pre @ r # post
        \<and> (\<forall>q \<in> set pre. q u p = NoDecision) \<and> r u p = Allow
        \<longrightarrow> apply_rules self u p = Inr True)
   \<and> (p \<in> ALL_UNDERSTOOD_PERMISSIONS \<and> rules (config self) = pre @ r # post
        \<and> (\<forall>q \<in> set pre. q u p = NoDecision) \<and> r u p = Deny
        \<longrightarrow> apply_rules self u p = Inr False)
   \<and> (p \<in> ALL_UNDERSTOOD_PERMISSIONS \<and> (\<forall>q \<in> set (rules (config self)). q u p = NoDecision)
        \<longrightarrow> apply_rules self u p = Inr (p \<notin> default_deny (config self)))
   \<and> (p \<in> ALL_UNDERSTOOD_PERMISSIONS \<and> rules (config self) = []
        \<longrightarrow> apply_rules self u p = Inr (p \<notin> default_deny (config self)))"
proof (intro conjI impI)
  show "ALL_UNDERSTOOD_PERMISSIONS =
     {''create_room'', ''invite'', ''receive_invites'', ''receive_all_invites'',
      ''invite_all'', ''join_room''}"
    by (rule catalog_names)
next
  assume "p \<notin> ALL_UNDERSTOOD_PERMISSIONS"
  then show "apply_rules self u p = Inl (ValueError p)"
    by (simp add: apply_rules_def)
next
  assume a: "p \<in> ALL_UNDERSTOOD_PERMISSIONS \<and> rules (config self) = pre @ r # post
        \<and> (\<forall>q \<in> set pre. q u p = NoDecision) \<and> r u p = Allow"
  then have "rules_loop (rules (config self)) u p = Some True"
    by (simp add: rules_loop_skip)
  with a show "apply_rules self u p = Inr True"
    by (simp add: apply_rules_understood)
next
  assume a: "p \<in> ALL_UNDERSTOOD_PERMISSIONS \<and> rules (config self) = pre @ r # post
        \<and> (\<forall>q \<in> set pre. q u p = NoDecision) \<and> r u p = Deny"
  then have "rules_loop (rules (config self)) u p = Some False"
    by (simp add: rules_loop_skip)
  with a show "apply_rules self u p = Inr False"
    by (simp add: apply_rules_understood)
next
  assume a: "p \<in> ALL_UNDERSTOOD_PERMISSIONS \<and> (\<forall>q \<in> set (rules (config self)). q u p = NoDecision)"
  then have "rules_loop (rules (config self)) u p = None"
    by (simp add: rules_loop_undecided)
  with a show "apply_rules self u p = Inr (p \<notin> default_deny (config self))"
    by (simp add: apply_rules_understood)
next
  assume a: "p \<in> ALL_UNDERSTOOD_PERMISSIONS \<and> rules (config self) = []"
  then show "apply_rules self u p = Inr (p \<notin> default_deny (config self))"
    by (simp add: apply_rules_understood)
qed

theorem apply_rules_first_decision_witness:
  "apply_rules (module_with [] {''invite''} {}) ''@a:x'' ''fly'' = Inl (ValueError ''fly'')
   \<and> apply_rules (module_with [decide_user ''@b:y'' Deny, decide_for ''@a:x'' ''invite'' Allow,
                               decide_all Deny] {''invite''} {}) ''@a:x'' ''invite'' = Inr True
   \<and> apply_rules (module_with [decide_user ''@b:y'' Allow, decide_for ''@a:x'' ''invite'' Deny,
                               decide_all Allow] {} {}) ''@a:x'' ''invite'' = Inr False
   \<and> apply_rules (module_with [decide_user ''@b:y'' Allow] {''invite''} {}) ''@a:x'' ''invite'' = Inr False
   \<and> apply_rules (module_with [decide_user ''@b:y'' Deny] {''invite''} {}) ''@a:x'' ''join_room'' = Inr True
   \<and> apply_rules (module_with [] {''invite''} {}) ''@a:x'' ''invite'' = Inr False
   \<and> apply_rules (module_with [] {''invite''} {}) ''@a:x'' ''join_room'' = Inr True"
proof -
  note ex = module_with_def module_on_def decide_user_def decide_for_def decide_all_def catalog_names
  have unknown: "apply_rules (module_with [] {''invite''} {}) ''@a:x'' ''fly'' = Inl (ValueError ''fly'')"
    using apply_rules_first_decision [where p = "''fly''" and u = "''@a:x''"
      and self = "module_with [] {''invite''} {}" and pre = "[]" and r = "decide_all Deny"
      and post = "[]"]
    by (simp add: ex)
  have allow: "apply_rules (module_with [decide_user ''@b:y'' Deny,
      decide_for ''@a:x'' ''invite'' Allow, decide_all Deny] {''invite''} {}) ''@a:x'' ''invite'' = Inr True"
    using apply_rules_first_decision [where p = "''invite''" and u = "''@a:x''"
      and self = "module_with [decide_user ''@b:y'' Deny, decide_for ''@a:x'' ''invite'' Allow,
                               decide_all Deny] {''invite''} {}"
      and pre = "[decide_user ''@b:y'' Deny]" and r = "decide_for ''@a:x'' ''invite'' Allow"
      and post = "[decide_all Deny]"]
    by (simp add: ex)
  have deny: "apply_rules (module_with [decide_user ''@b:y'' Allow,
      decide_for ''@a:x'' ''invite'' Deny, decide_all Allow] {} {}) ''@a:x'' ''invite'' = Inr False"
    using apply_rules_first_decision [where p = "''invite''" and u = "''@a:x''"
      and self = "module_with [decide_user ''@b:y'' Allow, decide_for ''@a:x'' ''invite'' Deny,
                               decide_all Allow] {} {}"
      and pre = "[decide_user ''@b:y'' Allow]" and r = "decide_for ''@a:x'' ''invite'' Deny"
      and post = "[decide_all Allow]"]
    by (simp add: ex)
  have undecided_denied: "apply_rules (module_with [decide_user ''@b:y'' Allow] {''invite''} {})
      ''@a:x'' ''invite'' = Inr False"
    using apply_rules_first_decision [where p = "''invite''" and u = "''@a:x''"
      and self = "module_with [decide_user ''@b:y'' Allow] {''invite''} {}"
      and pre = "[]" and r = "decide_all Deny" and post = "[]"]
    by (simp add: ex)
  have undecided_open: "apply_rules (module_with [decide_user ''@b:y'' Deny] {''invite''} {})
      ''@a:x'' ''join_room'' = Inr True"
    using apply_rules_first_decision [where p = "''join_room''" and u = "''@a:x''"
      and self = "module_with [decide_user ''@b:y'' Deny] {''invite''} {}"
      and pre = "[]" and r = "decide_all Deny" and post = "[]"]
    by (simp add: ex)
  have empty_denied: "apply_rules (module_with [] {''invite''} {}) ''@a:x'' ''invite'' = Inr False"
    using apply_rules_first_decision [where p = "''invite''" and u = "''@a:x''"
      and self = "module_with [] {''invite''} {}"
      and pre = "[]" and r = "decide_all Deny" and post = "[]"]
    by (simp add: ex)
  have empty_open: "apply_rules (module_with [] {''invite''} {}) ''@a:x'' ''join_room'' = Inr True"
    using apply_rules_first_decision [where p = "''join_room''" and u = "''@a:x''"
      and self = "module_with [] {''invite''} {}"
      and pre = "[]" and r = "decide_all Deny" and post = "[]"]
    by (simp add: ex)
  from unknown allow deny undecided_denied undecided_open empty_denied empty_open
  show ?thesis by blast
qed

text \<open>
  C2. First match wins: when the first rule denies every user and permission and the
  second rule allows the user \<open>X\<close>, \<open>apply_rules\<close> answers false for \<open>X\<close> and every
  recognised permission.
\<close>

theorem apply_rules_deny_all_first:
  assumes "rules (config self) = r1 # r2 # rest"
    and "\<forall>u p. r1 u p = Deny"
    and "\<forall>p. r2 X p = Allow"
    and "p \<in> ALL_UNDERSTOOD_PERMISSIONS"
  shows "apply_rules self X p = Inr False"
  using assms by (simp add: apply_rules_understood)

theorem apply_rules_deny_all_first_witness:
  "apply_rules (module_with [decide_all Deny, decide_user ''@x:hs'' Allow] {} {})
     ''@x:hs'' ''create_room'' = Inr False
   \<and> rules_loop [decide_user ''@x:hs'' Allow, decide_all Deny] ''@x:hs'' ''create_room'' = Some True"
  using apply_rules_deny_all_first [where
      self = "module_with [decide_all Deny, decide_user ''@x:hs'' Allow] {} {}"
      and ?r1.0 = "decide_all Deny" and ?r2.0 = "decide_user ''@x:hs'' Allow" and rest = "[]"
      and X = "''@x:hs''" and p = "''create_room''"]
  by (simp add: module_with_def module_on_def decide_user_def decide_all_def catalog_names)

subsection \<open>The invite authoriser\<close>

lemma get_domain_colon:
  assumes "CHR '':'' \<notin> set l"
  shows "get_domain (l @ CHR '':'' # d) = Inr (lower d)"
proof -
  from assms have "\<And>c. c \<in> set l \<Longrightarrow> c \<noteq> CHR '':''" by auto
  then have "dropWhile (\<lambda>c. c \<noteq> CHR '':'') (l @ CHR '':'' # d) = CHR '':'' # d"
    by simp
  then show ?thesis
    by (simp add: get_domain_def split1_def index_def)
qed

lemma get_domain_no_colon:
  "CHR '':'' \<notin> set s \<Longrightarrow> get_domain s = Inl IndexError"
  by (simp add: get_domain_def split1_def index_def)

lemma first_colon:
  "CHR '':'' \<in> set s \<Longrightarrow> \<exists>l d. s = l @ CHR '':'' # d \<and> CHR '':'' \<notin> set l"
  by (rule split_list_first)

lemma get_domain_total:
  "CHR '':'' \<in> set s \<Longrightarrow> \<exists>d. get_domain s = Inr d"
  using first_colon [of s] get_domain_colon by fastforce

lemma may_invite_unfold:
  "callback_user_may_invite self inviter invitee room =
     invite_decision_tree
       (allowed self inviter INVITE)
       (allowed self inviter INVITE_ALL)
       (allowed self invitee RECEIVE_ALL_INVITES)
       (allowed self invitee RECEIVE_INVITES)
       (local_homeserver_check self inviter)"
  by (simp add: callback_user_may_invite_def invite_decision_tree_def allowed_def
      local_homeserver_check_def apply_rules_understood permissions_understood)

lemma may_invite_step4:
  assumes "apply_rules self inviter INVITE = Inr True"
    and "apply_rules self inviter INVITE_ALL = Inr False"
    and "apply_rules self invitee RECEIVE_ALL_INVITES = Inr False"
    and "apply_rules self invitee RECEIVE_INVITES = Inr True"
  shows "callback_user_may_invite self inviter invitee room =
           local_homeserver_check self inviter"
  using assms by (simp add: may_invite_unfold invite_decision_tree_def allowed_def)

text \<open>
  C3. \<open>may_invite\<close> is the four-step short-circuit tree over the answers of the rule
  engine: false when the inviter lacks \<open>invite\<close>, else true when the inviter has
  \<open>invite_all\<close>, else true when the invitee has \<open>receive_all_invites\<close>, else the
  local-homeserver check when the invitee has \<open>receive_invites\<close>, else false. The room
  identifier takes no part: two rooms give the same result.
\<close>

theorem may_invite_decision_tree:
  "callback_user_may_invite self inviter invitee room =
     invite_decision_tree
       (apply_rules self inviter INVITE = Inr True)
       (apply_rules self inviter INVITE_ALL = Inr True)
       (apply_rules self invitee RECEIVE_ALL_INVITES = Inr True)
       (apply_rules self invitee RECEIVE_INVITES = Inr True)
       (local_homeserver_check self inviter)
   \<and> (apply_rules self inviter INVITE = Inr False) = (\<not> allowed self inviter INVITE)
   \<and> callback_user_may_invite self inviter invitee r1 =
       callback_user_may_invite self inviter invitee r2"
proof (intro conjI)
  show "callback_user_may_invite self inviter invitee room =
     invite_decision_tree
       (apply_rules self inviter INVITE = Inr True)
       (apply_rules self inviter INVITE_ALL = Inr True)
       (apply_rules self invitee RECEIVE_ALL_INVITES = Inr True)
       (apply_rules self invitee RECEIVE_INVITES = Inr True)
       (local_homeserver_check self inviter)"
    using may_invite_unfold [of self inviter invitee room] by (simp add: allowed_def)
next
  show "(apply_rules self inviter INVITE = Inr False) = (\<not> allowed self inviter INVITE)"
    by (simp add: allowed_def apply_rules_understood permissions_understood)
next
  show "callback_user_may_invite self inviter invitee r1 =
       callback_user_may_invite self inviter invitee r2"
    by (simp add: may_invite_unfold)
qed

theorem may_invite_decision_tree_witness:
  "callback_user_may_invite
     (module_with [decide_for ''@a:x'' ''invite'' Deny] {''invite_all'', ''receive_all_invites''} {''x''})
     ''@a:x'' ''@b:y'' ''!r'' = Inr False
   \<and> callback_user_may_invite
     (module_with [decide_for ''@a:z'' ''invite_all'' Allow] {''invite_all'', ''receive_all_invites''} {''x''})
     ''@a:z'' ''@b:y'' ''!r'' = Inr True
   \<and> callback_user_may_invite
     (module_with [decide_for ''@b:y'' ''receive_all_invites'' Allow]
        {''invite_all'', ''receive_all_invites''} {''x''})
     ''@a:z'' ''@b:y'' ''!r'' = Inr True
   \<and> callback_user_may_invite
     (module_with [] {''invite_all'', ''receive_all_invites'', ''receive_invites''} {''x''})
     ''@a:x'' ''@b:y'' ''!r'' = Inr False"
proof -
  note ex = module_with_def module_on_def decide_for_def invite_decision_tree_def apply_rules_def
    local_homeserver_check_def catalog_names INVITE_def INVITE_ALL_def RECEIVE_ALL_INVITES_def
    RECEIVE_INVITES_def
  have no_invite: "callback_user_may_invite
     (module_with [decide_for ''@a:x'' ''invite'' Deny] {''invite_all'', ''receive_all_invites''} {''x''})
     ''@a:x'' ''@b:y'' ''!r'' = Inr False"
    using may_invite_decision_tree [where self = "module_with [decide_for ''@a:x'' ''invite'' Deny]
        {''invite_all'', ''receive_all_invites''} {''x''}"
      and inviter = "''@a:x''" and invitee = "''@b:y''" and room = "''!r''"]
    by (simp add: ex)
  have invite_all: "callback_user_may_invite
     (module_with [decide_for ''@a:z'' ''invite_all'' Allow] {''invite_all'', ''receive_all_invites''} {''x''})
     ''@a:z'' ''@b:y'' ''!r'' = Inr True"
    using may_invite_decision_tree [where self = "module_with [decide_for ''@a:z'' ''invite_all'' Allow]
        {''invite_all'', ''receive_all_invites''} {''x''}"
      and inviter = "''@a:z''" and invitee = "''@b:y''" and room = "''!r''"]
    by (simp add: ex)
  have receive_all: "callback_user_may_invite
     (module_with [decide_for ''@b:y'' ''receive_all_invites'' Allow]
        {''invite_all'', ''receive_all_invites''} {''x''})
     ''@a:z'' ''@b:y'' ''!r'' = Inr True"
    using may_invite_decision_tree [where self = "module_with
        [decide_for ''@b:y'' ''receive_all_invites'' Allow]
        {''invite_all'', ''receive_all_invites''} {''x''}"
      and inviter = "''@a:z''" and invitee = "''@b:y''" and room = "''!r''"]
    by (simp add: ex)
  have neither: "callback_user_may_invite
     (module_with [] {''invite_all'', ''receive_all_invites'', ''receive_invites''} {''x''})
     ''@a:x'' ''@b:y'' ''!r'' = Inr False"
    using may_invite_decision_tree [where self = "module_with []
        {''invite_all'', ''receive_all_invites'', ''receive_invites''} {''x''}"
      and inviter = "''@a:x''" and invitee = "''@b:y''" and room = "''!r''"]
    by (simp add: ex)
  from no_invite invite_all receive_all neither show ?thesis by blast
qed

text \<open>
  C4. At step 4 (the inviter has \<open>invite\<close> but not \<open>invite_all\<close>, the invitee has
  \<open>receive_invites\<close> but not \<open>receive_all_invites\<close>) \<open>may_invite\<close> answers true
  exactly when the lowercased part of the inviter's identifier after its first colon is
  in \<open>local_homeservers\<close>. With \<open>local_homeservers = {x}\<close> an inviter at domain
  \<open>x\<close> is allowed and one at domain \<open>z\<close> is denied.
\<close>

theorem may_invite_local_homeserver:
  assumes "apply_rules self inviter INVITE = Inr True"
    and "apply_rules self inviter INVITE_ALL = Inr False"
    and "apply_rules self invitee RECEIVE_ALL_INVITES = Inr False"
    and "apply_rules self invitee RECEIVE_INVITES = Inr True"
  shows "((callback_user_may_invite self inviter invitee room = Inr True) =
            (\<exists>l d. inviter = l @ CHR '':'' # d \<and> CHR '':'' \<notin> set l
                   \<and> lower d \<in> local_homeservers (config self)))
     \<and> (inviter = l @ CHR '':'' # d \<and> CHR '':'' \<notin> set l \<longrightarrow>
          callback_user_may_invite self inviter invitee room =
            Inr (lower d \<in> local_homeservers (config self)))
     \<and> (local_homeservers (config self) = {''x''} \<and> inviter = l @ '':x'' \<and> CHR '':'' \<notin> set l \<longrightarrow>
          callback_user_may_invite self inviter invitee room = Inr True)
     \<and> (local_homeservers (config self) = {''x''} \<and> inviter = l @ '':z'' \<and> CHR '':'' \<notin> set l \<longrightarrow>
          callback_user_may_invite self inviter invitee room = Inr False)"
proof -
  have step4: "callback_user_may_invite self inviter invitee room =
      local_homeserver_check self inviter"
    using assms by (rule may_invite_step4)
  have known: "callback_user_may_invite self inviter invitee room =
      Inr (lower d' \<in> local_homeservers (config self))"
    if "inviter = l' @ CHR '':'' # d'" and "CHR '':'' \<notin> set l'" for l' d'
    unfolding step4 using that by (simp add: local_homeserver_check_def get_domain_colon)
  have iff: "(callback_user_may_invite self inviter invitee room = Inr True) =
            (\<exists>l d. inviter = l @ CHR '':'' # d \<and> CHR '':'' \<notin> set l
                   \<and> lower d \<in> local_homeservers (config self))"
  proof (cases "CHR '':'' \<in> set inviter")
    case True
    then obtain l' d' where split: "inviter = l' @ CHR '':'' # d'" "CHR '':'' \<notin> set l'"
      using first_colon by blast
    show ?thesis
    proof
      assume "callback_user_may_invite self inviter invitee room = Inr True"
      with known [OF split] have "lower d' \<in> local_homeservers (config self)" by simp
      with split show "\<exists>l d. inviter = l @ CHR '':'' # d \<and> CHR '':'' \<notin> set l
                   \<and> lower d \<in> local_homeservers (config self)"
        by blast
    next
      assume "\<exists>l d. inviter = l @ CHR '':'' # d \<and> CHR '':'' \<notin> set l
                   \<and> lower d \<in> local_homeservers (config self)"
      then obtain l'' d'' where s2: "inviter = l'' @ CHR '':'' # d''" "CHR '':'' \<notin> set l''"
        and mem: "lower d'' \<in> local_homeservers (config self)"
        by blast
      from known [OF s2] mem
      show "callback_user_may_invite self inviter invitee room = Inr True" by simp
    qed
  next
    case False
    then have "callback_user_may_invite self inviter invitee room = Inl IndexError"
      by (simp add: step4 local_homeserver_check_def get_domain_no_colon)
    moreover from False have "\<not> (\<exists>l d. inviter = l @ CHR '':'' # d \<and> CHR '':'' \<notin> set l
                   \<and> lower d \<in> local_homeservers (config self))"
      by auto
    ultimately show ?thesis by simp
  qed
  have lx: "lower ''x'' = ''x''" and lz: "lower ''z'' = ''z''"
    by (simp_all add: lower_def char_lower_def)
  have at_x: "callback_user_may_invite self inviter invitee room = Inr True"
    if "local_homeservers (config self) = {''x''}" and "inviter = l @ '':x''"
      and "CHR '':'' \<notin> set l"
    using that known [of l "''x''"] lx by simp
  have at_z: "callback_user_may_invite self inviter invitee room = Inr False"
    if "local_homeservers (config self) = {''x''}" and "inviter = l @ '':z''"
      and "CHR '':'' \<notin> set l"
    using that known [of l "''z''"] lz by simp
  from iff known at_x at_z show ?thesis by blast
qed

theorem may_invite_local_homeserver_witness:
  "callback_user_may_invite (module_with [] {''invite_all'', ''receive_all_invites''} {''x''})
     ''@a:x'' ''@b:y'' ''!r'' = Inr True
   \<and> callback_user_may_invite (module_with [] {''invite_all'', ''receive_all_invites''} {''x''})
     ''@a:z'' ''@b:y'' ''!r'' = Inr False
   \<and> callback_user_may_invite (module_with [] {''invite_all'', ''receive_all_invites''} {''x''})
     ''@a:X'' ''@b:y'' ''!r'' = Inr True"
proof -
  note ex = module_with_def module_on_def apply_rules_def catalog_names INVITE_def INVITE_ALL_def
    RECEIVE_ALL_INVITES_def RECEIVE_INVITES_def lower_def char_lower_def
  have at_x: "callback_user_may_invite (module_with [] {''invite_all'', ''receive_all_invites''} {''x''})
     ''@a:x'' ''@b:y'' ''!r'' = Inr True"
    using may_invite_local_homeserver [where
        self = "module_with [] {''invite_all'', ''receive_all_invites''} {''x''}"
        and inviter = "''@a:x''" and invitee = "''@b:y''" and room = "''!r''"
        and l = "''@a''" and d = "''x''"]
    by (simp add: ex)
  have at_z: "callback_user_may_invite (module_with [] {''invite_all'', ''receive_all_invites''} {''x''})
     ''@a:z'' ''@b:y'' ''!r'' = Inr False"
    using may_invite_local_homeserver [where
        self = "module_with [] {''invite_all'', ''receive_all_invites''} {''x''}"
        and inviter = "''@a:z''" and invitee = "''@b:y''" and room = "''!r''"
        and l = "''@a''" and d = "''z''"]
    by (simp add: ex)
  have upper: "lower ''X'' = ''x''"
    by code_simp
  have at_upper: "callback_user_may_invite
      (module_with [] {''invite_all'', ''receive_all_invites''} {''x''})
      ''@a:X'' ''@b:y'' ''!r'' = Inr True"
    using may_invite_local_homeserver [where
        self = "module_with [] {''invite_all'', ''receive_all_invites''} {''x''}"
        and inviter = "''@a:X''" and invitee = "''@b:y''" and room = "''!r''"
        and l = "''@a''" and d = "''X''"] upper
    by (simp add: module_with_def module_on_def apply_rules_def catalog_names INVITE_def
        INVITE_ALL_def RECEIVE_ALL_INVITES_def RECEIVE_INVITES_def)
  from at_x at_z at_upper show ?thesis by blast
qed

text \<open>
  C10. \<open>may_invite\<close> returns a verdict whenever the inviter's identifier contains a
  colon. Without one, an evaluation that reaches step 4 ends in the indexing error of
  the domain extraction.
\<close>

theorem may_invite_needs_colon:
  "(apply_rules self inviter INVITE = Inr True
      \<and> apply_rules self inviter INVITE_ALL = Inr False
      \<and> apply_rules self invitee RECEIVE_ALL_INVITES = Inr False
      \<and> apply_rules self invitee RECEIVE_INVITES = Inr True
      \<and> CHR '':'' \<notin> set inviter
      \<longrightarrow> callback_user_may_invite self inviter invitee room = Inl IndexError)
   \<and> (CHR '':'' \<in> set inviter
      \<longrightarrow> (\<exists>b. callback_user_may_invite self inviter invitee room = Inr b))"
proof (intro conjI impI)
  assume a: "apply_rules self inviter INVITE = Inr True
      \<and> apply_rules self inviter INVITE_ALL = Inr False
      \<and> apply_rules self invitee RECEIVE_ALL_INVITES = Inr False
      \<and> apply_rules self invitee RECEIVE_INVITES = Inr True
      \<and> CHR '':'' \<notin> set inviter"
  then have "callback_user_may_invite self inviter invitee room =
      local_homeserver_check self inviter"
    by (simp add: may_invite_step4)
  with a show "callback_user_may_invite self inviter invitee room = Inl IndexError"
    by (simp add: local_homeserver_check_def get_domain_no_colon)
next
  assume "CHR '':'' \<in> set inviter"
  then obtain d where "get_domain inviter = Inr d"
    using get_domain_total by blast
  then show "\<exists>b. callback_user_may_invite self inviter invitee room = Inr b"
    by (auto simp add: may_invite_unfold invite_decision_tree_def local_homeserver_check_def)
qed

theorem may_invite_needs_colon_witness:
  "callback_user_may_invite (module_with [] {''invite_all'', ''receive_all_invites''} {''x''})
     ''alice'' ''@b:y'' ''!r'' = Inl IndexError
   \<and> (\<exists>b. callback_user_may_invite (module_with [] {''invite_all'', ''receive_all_invites''} {''x''})
     ''@alice:x'' ''@b:y'' ''!r'' = Inr b)"
proof -
  note ex = module_with_def module_on_def apply_rules_def catalog_names INVITE_def INVITE_ALL_def
    RECEIVE_ALL_INVITES_def RECEIVE_INVITES_def
  have no_colon: "callback_user_may_invite
      (module_with [] {''invite_all'', ''receive_all_invites''} {''x''})
      ''alice'' ''@b:y'' ''!r'' = Inl IndexError"
    using may_invite_needs_colon [where
        self = "module_with [] {''invite_all'', ''receive_all_invites''} {''x''}"
        and inviter = "''alice''" and invitee = "''@b:y''" and room = "''!r''"]
    by (simp add: ex)
  have colon: "\<exists>b. callback_user_may_invite
      (module_with [] {''invite_all'', ''receive_all_invites''} {''x''})
      ''@alice:x'' ''@b:y'' ''!r'' = Inr b"
    using may_invite_needs_colon [where
        self = "module_with [] {''invite_all'', ''receive_all_invites''} {''x''}"
        and inviter = "''@alice:x''" and invitee = "''@b:y''" and room = "''!r''"]
    by simp
  from no_colon colon show ?thesis by blast
qed

subsection \<open>The room-join authoriser\<close>

lemma subscript_truthy:
  "subscript v key = Inr c \<Longrightarrow> truthy v"
  by (cases v) (auto split: option.splits)

lemma may_join_room_fallback:
  "state_check self user room \<noteq> Inr True \<Longrightarrow>
   callback_user_may_join_room self user room is_invited =
     Inr (allowed self user JOIN_ROOM \<or> is_invited)"
  by (cases "state_check self user room")
    (auto simp add: callback_user_may_join_room_def allowed_def apply_rules_understood
      permissions_understood)

text \<open>
  C5. When the state lookup succeeds and the content of the \<open>(m.room.member, user)\<close>
  entry has membership \<open>join\<close>, \<open>may_join_room\<close> answers true, whatever
  \<open>is_invited\<close>, the rules and \<open>default_deny\<close> are.
\<close>

theorem may_join_room_already_joined:
  assumes "get_room_state (api self) room = Inr state"
    and "state (''m.room.member'', user) = Some member_event"
    and "subscript member_event ''content'' = Inr c"
    and "get_method c ''membership'' = Inr (PStr ''join'')"
  shows "callback_user_may_join_room self user room is_invited = Inr True"
proof -
  from assms(3) have "truthy member_event"
    by (rule subscript_truthy)
  with assms have "state_check self user room = Inr True"
    by (simp add: state_check_def)
  then show ?thesis
    by (simp add: callback_user_may_join_room_def)
qed

theorem may_join_room_already_joined_witness:
  "callback_user_may_join_room
     (module_on
        (member_host ''@u:hs'' (PDict [(''content'', PDict [(''membership'', PStr ''join'')])]))
        [decide_all Deny] {''join_room''} {})
     ''@u:hs'' ''!r'' False = Inr True"
  using may_join_room_already_joined [where
      self = "module_on
        (member_host ''@u:hs'' (PDict [(''content'', PDict [(''membership'', PStr ''join'')])]))
        [decide_all Deny] {''join_room''} {}"
      and room = "''!r''" and user = "''@u:hs''" and is_invited = False
      and state = "[(''m.room.member'', ''@u:hs'') \<mapsto>
                     PDict [(''content'', PDict [(''membership'', PStr ''join'')])]]"
      and member_event = "PDict [(''content'', PDict [(''membership'', PStr ''join'')])]"
      and c = "PDict [(''membership'', PStr ''join'')]"]
  by (simp add: module_on_def member_host_def)

text \<open>
  C6. When the state lookup raises, \<open>may_join_room\<close> raises nothing: it answers
  \<open>apply_rules(user, join_room) or is_invited\<close>, as it does when the lookup succeeds
  and reports no membership for the user.
\<close>

theorem may_join_room_lookup_failure:
  assumes "get_room_state (api self) room = Inl e"
  shows "apply_rules self user JOIN_ROOM = Inr (allowed self user JOIN_ROOM)
     \<and> callback_user_may_join_room self user room is_invited =
         Inr (allowed self user JOIN_ROOM \<or> is_invited)
     \<and> callback_user_may_join_room self user room is_invited =
         callback_user_may_join_room
           (self\<lparr>api := (api self)\<lparr>get_room_state := (\<lambda>r. Inr Map.empty)\<rparr>\<rparr>)
           user room is_invited"
proof (intro conjI)
  show "apply_rules self user JOIN_ROOM = Inr (allowed self user JOIN_ROOM)"
    by (simp add: allowed_def apply_rules_understood permissions_understood)
next
  from assms have "state_check self user room = Inl e"
    by (simp add: state_check_def)
  then have "state_check self user room \<noteq> Inr True"
    by simp
  then show fallback: "callback_user_may_join_room self user room is_invited =
         Inr (allowed self user JOIN_ROOM \<or> is_invited)"
    by (rule may_join_room_fallback)
  let ?quiet = "self\<lparr>api := (api self)\<lparr>get_room_state := (\<lambda>r. Inr Map.empty)\<rparr>\<rparr>"
  have "state_check ?quiet user room \<noteq> Inr True"
    by (simp add: state_check_def)
  then have "callback_user_may_join_room ?quiet user room is_invited =
         Inr (allowed ?quiet user JOIN_ROOM \<or> is_invited)"
    by (rule may_join_room_fallback)
  moreover have "allowed ?quiet user JOIN_ROOM = allowed self user JOIN_ROOM"
    by (simp add: allowed_def apply_rules_def)
  ultimately show "callback_user_may_join_room self user room is_invited =
         callback_user_may_join_room ?quiet user room is_invited"
    using fallback by simp
qed

theorem may_join_room_lookup_failure_witness:
  "callback_user_may_join_room (module_with [decide_all Deny] {} {}) ''@u:hs'' ''!r'' False = Inr False
   \<and> callback_user_may_join_room (module_with [decide_all Deny] {} {}) ''@u:hs'' ''!r'' True = Inr True
   \<and> callback_user_may_join_room (module_with [] {} {}) ''@u:hs'' ''!r'' False = Inr True"
proof -
  note ex = module_with_def module_on_def failing_host_def decide_all_def allowed_def
    apply_rules_def catalog_names JOIN_ROOM_def
  have denied: "callback_user_may_join_room (module_with [decide_all Deny] {} {})
      ''@u:hs'' ''!r'' False = Inr False"
    using may_join_room_lookup_failure [where self = "module_with [decide_all Deny] {} {}"
      and room = "''!r''" and user = "''@u:hs''" and is_invited = False
      and e = "HostError ''state unavailable''"]
    by (simp add: ex)
  have invited: "callback_user_may_join_room (module_with [decide_all Deny] {} {})
      ''@u:hs'' ''!r'' True = Inr True"
    using may_join_room_lookup_failure [where self = "module_with [decide_all Deny] {} {}"
      and room = "''!r''" and user = "''@u:hs''" and is_invited = True
      and e = "HostError ''state unavailable''"]
    by (simp add: ex)
  have by_rule: "callback_user_may_join_room (module_with [] {} {})
      ''@u:hs'' ''!r'' False = Inr True"
    using may_join_room_lookup_failure [where self = "module_with [] {} {}"
      and room = "''!r''" and user = "''@u:hs''" and is_invited = False
      and e = "HostError ''state unavailable''"]
    by (simp add: ex)
  from denied invited by_rule show ?thesis by blast
qed

subsection \<open>The restriction gate\<close>

lemma check_rooms_ok:
  "(check_rooms xs = Inr ()) = (\<forall>x \<in> set xs. is_room_id x)"
proof (induction xs)
  case Nil
  show ?case by simp
next
  case (Cons x xs)
  then show ?case by (cases x) simp_all
qed

lemma check_rooms_error:
  "check_rooms xs = Inl e \<Longrightarrow> \<exists>m. e = ConfigError m"
proof (induction xs)
  case Nil
  then show ?case by simp
next
  case (Cons x xs)
  then show ?case by (cases x) (auto split: if_splits)
qed

lemma check_rooms_cases:
  "check_rooms xs = Inr () \<or> (\<exists>m. check_rooms xs = Inl (ConfigError m))"
proof (cases "check_rooms xs")
  case (Inl e)
  then show ?thesis using check_rooms_error by blast
next
  case (Inr u)
  then show ?thesis by simp
qed

lemma room_set_strings:
  "room_set xs = {s. PStr s \<in> set xs}"
  by (induction xs rule: room_set.induct) auto

text \<open>
  C7. \<open>check_event_allowed\<close> raises the 403 \<open>Forbidden\<close> error with the configured
  message exactly when the event is an \<open>m.room.member\<close> event with membership
  \<open>leave\<close>, in a restricted room, sent by its own target, and that sender is local.
  Every other event comes back unchanged.
\<close>

theorem check_event_allowed_leave_block:
  "check_event_allowed self event state_events =
     (if type event = ''m.room.member''
         \<and> map_of (content event) ''membership'' = Some (PStr ''leave'')
         \<and> room_id event \<in> self_restricted_rooms self
         \<and> sender event = state_key event
         \<and> is_mine (self_api self) (sender event)
      then Inl (SynapseError 403 (self_leave_error_message self) FORBIDDEN)
      else Inr event)
   \<and> ((\<exists>e. check_event_allowed self event state_events = Inl e) = local_self_leave self event)
   \<and> (\<not> local_self_leave self event \<longrightarrow> check_event_allowed self event state_events = Inr event)
   \<and> self_leave_error_message (init cfg host) = leave_error_message cfg
   \<and> self_restricted_rooms (init cfg host) = restricted_rooms cfg"
  by (auto simp add: check_event_allowed_def local_self_leave_def init_def Let_def
      split: option.splits)

theorem check_event_allowed_leave_block_witness:
  "check_event_allowed
     (init \<lparr>restricted_rooms = {''!restricted''}, leave_error_message = ''stay''\<rparr> home_host)
     (leave_event ''!restricted'' ''@local:home'' ''@local:home'' ''leave'') Map.empty
     = Inl (SynapseError 403 ''stay'' FORBIDDEN)
   \<and> check_event_allowed
     (init \<lparr>restricted_rooms = {''!restricted''}, leave_error_message = ''stay''\<rparr> home_host)
     (leave_event ''!restricted'' ''@admin:home'' ''@local:home'' ''leave'') Map.empty
     = Inr (leave_event ''!restricted'' ''@admin:home'' ''@local:home'' ''leave'')
   \<and> check_event_allowed
     (init \<lparr>restricted_rooms = {''!restricted''}, leave_error_message = ''stay''\<rparr> home_host)
     (leave_event ''!restricted'' ''@far:away'' ''@far:away'' ''leave'') Map.empty
     = Inr (leave_event ''!restricted'' ''@far:away'' ''@far:away'' ''leave'')
   \<and> check_event_allowed
     (init \<lparr>restricted_rooms = {''!restricted''}, leave_error_message = ''stay''\<rparr> home_host)
     (leave_event ''!open'' ''@local:home'' ''@local:home'' ''leave'') Map.empty
     = Inr (leave_event ''!open'' ''@local:home'' ''@local:home'' ''leave'')
   \<and> check_event_allowed
     (init \<lparr>restricted_rooms = {''!restricted''}, leave_error_message = ''stay''\<rparr> home_host)
     (leave_event ''!restricted'' ''@local:home'' ''@local:home'' ''join'') Map.empty
     = Inr (leave_event ''!restricted'' ''@local:home'' ''@local:home'' ''join'')"
proof -
  let ?gate = "init \<lparr>restricted_rooms = {''!restricted''}, leave_error_message = ''stay''\<rparr> home_host"
  note ex = init_def home_host_def leave_event_def local_self_leave_def get_domain_def
    split1_def index_def lower_def char_lower_def
  have blocked: "check_event_allowed ?gate
      (leave_event ''!restricted'' ''@local:home'' ''@local:home'' ''leave'') Map.empty
      = Inl (SynapseError 403 ''stay'' FORBIDDEN)"
    using check_event_allowed_leave_block [where self = ?gate and state_events = Map.empty
      and event = "leave_event ''!restricted'' ''@local:home'' ''@local:home'' ''leave''"]
    by (simp add: ex)
  have kick: "check_event_allowed ?gate
      (leave_event ''!restricted'' ''@admin:home'' ''@local:home'' ''leave'') Map.empty
      = Inr (leave_event ''!restricted'' ''@admin:home'' ''@local:home'' ''leave'')"
    using check_event_allowed_leave_block [where self = ?gate and state_events = Map.empty
      and event = "leave_event ''!restricted'' ''@admin:home'' ''@local:home'' ''leave''"]
    by (simp add: ex)
  have remote: "check_event_allowed ?gate
      (leave_event ''!restricted'' ''@far:away'' ''@far:away'' ''leave'') Map.empty
      = Inr (leave_event ''!restricted'' ''@far:away'' ''@far:away'' ''leave'')"
    using check_event_allowed_leave_block [where self = ?gate and state_events = Map.empty
      and event = "leave_event ''!restricted'' ''@far:away'' ''@far:away'' ''leave''"]
    by (simp add: ex)
  have unrestricted: "check_event_allowed ?gate
      (leave_event ''!open'' ''@local:home'' ''@local:home'' ''leave'') Map.empty
      = Inr (leave_event ''!open'' ''@local:home'' ''@local:home'' ''leave'')"
    using check_event_allowed_leave_block [where self = ?gate and state_events = Map.empty
      and event = "leave_event ''!open'' ''@local:home'' ''@local:home'' ''leave''"]
    by (simp add: ex)
  have joining: "check_event_allowed ?gate
      (leave_event ''!restricted'' ''@local:home'' ''@local:home'' ''join'') Map.empty
      = Inr (leave_event ''!restricted'' ''@local:home'' ''@local:home'' ''join'')"
    using check_event_allowed_leave_block [where self = ?gate and state_events = Map.empty
      and event = "leave_event ''!restricted'' ''@local:home'' ''@local:home'' ''join''"]
    by (simp add: ex)
  from blocked kick remote unrestricted joining show ?thesis by blast
qed

text \<open>
  C9. \<open>parse_config\<close> raises a configuration error exactly when \<open>restricted_rooms\<close>
  is present and no list, or an entry of \<open>restricted_rooms\<close> is not a string
  starting with \<open>!\<close>, or \<open>leave_error_message\<close> is present and no string.
  Otherwise it returns the rooms as a set and the message, which is \<open>You are not
  allowed to leave this room.\<close> when the configuration has none.
\<close>

theorem parse_config_rejects:
  "((\<exists>m. parse_config cfg = Inl (ConfigError m)) =
      (rooms_not_a_list cfg \<or> bad_room_entry cfg \<or> message_not_a_string cfg))
   \<and> ((\<exists>e. parse_config cfg = Inl e) = (\<exists>m. parse_config cfg = Inl (ConfigError m)))
   \<and> (\<not> (rooms_not_a_list cfg \<or> bad_room_entry cfg \<or> message_not_a_string cfg) \<longrightarrow>
        parse_config cfg =
          Inr \<lparr>restricted_rooms = {s. PStr s \<in> set (configured_rooms cfg)},
               leave_error_message = configured_message cfg\<rparr>)
   \<and> (cfg ''leave_error_message'' = None \<longrightarrow>
        configured_message cfg = ''You are not allowed to leave this room.'')"
proof -
  let ?bad = "rooms_not_a_list cfg \<or> bad_room_entry cfg \<or> message_not_a_string cfg"
  have entries: "bad_room_entry cfg = (check_rooms (configured_rooms cfg) \<noteq> Inr ())"
    by (simp add: bad_room_entry_def check_rooms_ok list_ex_iff)
  have rejected: "\<exists>m. parse_config cfg = Inl (ConfigError m)" if ?bad
  proof (cases "rooms_not_a_list cfg")
    case True
    then show ?thesis
      by (auto simp add: parse_config_def rooms_not_a_list_def get_default_def
          split: option.splits pyval.splits)
  next
    case no_list: False
    show ?thesis
    proof (cases "bad_room_entry cfg")
      case True
      with entries check_rooms_cases [of "configured_rooms cfg"]
      obtain m where "check_rooms (configured_rooms cfg) = Inl (ConfigError m)"
        by auto
      with no_list show ?thesis
        by (auto simp add: parse_config_def rooms_not_a_list_def configured_rooms_def
            get_default_def split: option.splits pyval.splits)
    next
      case False
      with entries have ok: "check_rooms (configured_rooms cfg) = Inr ()"
        by simp
      from False no_list that have "message_not_a_string cfg"
        by simp
      with no_list ok show ?thesis
        by (auto simp add: parse_config_def rooms_not_a_list_def configured_rooms_def
            message_not_a_string_def get_default_def split: option.splits pyval.splits)
    qed
  qed
  have accepted: "parse_config cfg =
          Inr \<lparr>restricted_rooms = {s. PStr s \<in> set (configured_rooms cfg)},
               leave_error_message = configured_message cfg\<rparr>" if "\<not> ?bad"
  proof -
    from that entries have ok: "check_rooms (configured_rooms cfg) = Inr ()"
      by simp
    from that have "\<not> rooms_not_a_list cfg" and "\<not> message_not_a_string cfg"
      by simp_all
    with ok show ?thesis
      by (auto simp add: parse_config_def rooms_not_a_list_def configured_rooms_def
          message_not_a_string_def configured_message_def get_default_def room_set_strings
          split: option.splits pyval.splits)
  qed
  have iff: "(\<exists>m. parse_config cfg = Inl (ConfigError m)) = ?bad"
  proof (cases ?bad)
    case True
    with rejected show ?thesis by simp
  next
    case False
    with accepted have "\<exists>r. parse_config cfg = Inr r" by simp
    with False show ?thesis by auto
  qed
  have only_config: "(\<exists>e. parse_config cfg = Inl e) = (\<exists>m. parse_config cfg = Inl (ConfigError m))"
  proof (cases ?bad)
    case True
    with rejected show ?thesis by auto
  next
    case False
    with accepted have "\<exists>r. parse_config cfg = Inr r" by simp
    then show ?thesis by auto
  qed
  have dflt: "cfg ''leave_error_message'' = None \<longrightarrow>
        configured_message cfg = ''You are not allowed to leave this room.''"
    by (simp add: configured_message_def)
  from iff only_config accepted dflt show ?thesis by blast
qed

theorem parse_config_rejects_witness:
  "parse_config [''restricted_rooms'' \<mapsto> PList [PStr ''!a:hs'', PStr ''!b:hs'']]
     = Inr \<lparr>restricted_rooms = {''!a:hs'', ''!b:hs''},
            leave_error_message = ''You are not allowed to leave this room.''\<rparr>
   \<and> (\<exists>m. parse_config [''restricted_rooms'' \<mapsto> PList [PStr ''!a:hs'', PStr ''#b:hs'']]
          = Inl (ConfigError m))
   \<and> (\<exists>m. parse_config [''restricted_rooms'' \<mapsto> PStr ''!a:hs''] = Inl (ConfigError m))
   \<and> (\<exists>m. parse_config [''leave_error_message'' \<mapsto> PInt 3] = Inl (ConfigError m))"
proof -
  note ex = rooms_not_a_list_def bad_room_entry_def message_not_a_string_def
    configured_rooms_def configured_message_def startswith_def
  have good: "parse_config [''restricted_rooms'' \<mapsto> PList [PStr ''!a:hs'', PStr ''!b:hs'']]
     = Inr \<lparr>restricted_rooms = {''!a:hs'', ''!b:hs''},
            leave_error_message = ''You are not allowed to leave this room.''\<rparr>"
  proof -
    have "{s. PStr s \<in> set [PStr ''!a:hs'', PStr ''!b:hs'']} = {''!a:hs'', ''!b:hs''}"
      by auto
    then show ?thesis
      using parse_config_rejects [where
        cfg = "[''restricted_rooms'' \<mapsto> PList [PStr ''!a:hs'', PStr ''!b:hs'']]"]
      by (simp add: ex)
  qed
  have bad_entry: "\<exists>m. parse_config
      [''restricted_rooms'' \<mapsto> PList [PStr ''!a:hs'', PStr ''#b:hs'']] = Inl (ConfigError m)"
    using parse_config_rejects [where
        cfg = "[''restricted_rooms'' \<mapsto> PList [PStr ''!a:hs'', PStr ''#b:hs'']]"]
    by (simp add: ex)
  have no_list: "\<exists>m. parse_config [''restricted_rooms'' \<mapsto> PStr ''!a:hs''] = Inl (ConfigError m)"
    using parse_config_rejects [where cfg = "[''restricted_rooms'' \<mapsto> PStr ''!a:hs'']"]
    by (simp add: ex)
  have no_string: "\<exists>m. parse_config [''leave_error_message'' \<mapsto> PInt 3] = Inl (ConfigError m)"
    using parse_config_rejects [where cfg = "[''leave_error_message'' \<mapsto> PInt 3]"]
    by (simp add: ex)
  from good bad_entry no_list no_string show ?thesis by blast
qed

text \<open>
  C8. The deactivation guard returns exactly \<open>by_admin\<close>: false for a self-deactivation,
  true for one by an administrator, whatever the user identifier.
\<close>

theorem check_can_deactivate_user_by_admin:
  "check_can_deactivate_user self user_id by_admin = by_admin
   \<and> check_can_deactivate_user self user_id False = False
   \<and> check_can_deactivate_user self user_id True = True
   \<and> check_can_deactivate_user self user_id by_admin = check_can_deactivate_user self user_id' by_admin"
  by (simp add: check_can_deactivate_user_def)

end
